theory Spec2Isabelle
  imports Complex_Main "HOL-Library.Sublist"
begin

section \<open>Values exchanged with the server\<close>

text \<open>
  The client receives JSON. Only the shape that the code inspects is modelled: a value of
  type \<open>any\<close> is a \<open>json\<close> tree, and a test such as \<open>if (x)\<close> is JavaScript truthiness.
  Numbers are carried around and compared, never computed with, so they are reals here.
\<close>

datatype json =
    JNull
  | JBool bool
  | JNum real
  | JStr string
  | JArr "json list"
  | JObj "(string \<times> json) list"

fun truthy :: "json \<Rightarrow> bool" where
  "truthy JNull = False"
| "truthy (JBool b) = b"
| "truthy (JNum x) = (x \<noteq> 0)"
| "truthy (JStr s) = (s \<noteq> [])"
| "truthy (JArr xs) = True"
| "truthy (JObj kvs) = True"

text \<open>An optional field is \<open>None\<close> when it is \<open>undefined\<close> or \<open>null\<close>.\<close>

definition truthy_opt :: "json option \<Rightarrow> bool" where
  "truthy_opt v = (case v of None \<Rightarrow> False | Some j \<Rightarrow> truthy j)"

definition truthy_string :: "string option \<Rightarrow> bool" where
  "truthy_string v = (case v of None \<Rightarrow> False | Some t \<Rightarrow> t \<noteq> [])"

text \<open>The operator \<open>a ?? b\<close>.\<close>

definition nullish :: "'a option \<Rightarrow> 'a \<Rightarrow> 'a" where
  "nullish v d = (case v of None \<Rightarrow> d | Some x \<Rightarrow> x)"

text \<open>\<open>xs.slice(0, end)\<close>: a negative \<open>end\<close> counts from the end of the array.\<close>

definition slice0 :: "'a list \<Rightarrow> int \<Rightarrow> 'a list" where
  "slice0 xs e =
     (let n = int (length xs);
          k = (if e < 0 then max (n + e) 0 else min e n)
      in take (nat k) xs)"



text \<open>\<open>n.toString()\<close> for a non-negative integer.\<close>

fun string_of_nat :: "nat \<Rightarrow> string" where
  "string_of_nat n =
     (if n < 10 then [''0123456789'' ! n]
      else string_of_nat (n div 10) @ [''0123456789'' ! (n mod 10)])"

declare string_of_nat.simps [simp del]

section \<open>Data model\<close>

text \<open>
  Modelled from the spec: the type \<open>EphemeralAction\<close> is declared in \<open>lib/types\<close>, which is
  not among the sources; the fields are the ones the specification lists and the code
  reads. \<open>updates\<close> is optional here because the server's JSON can lack it, which the
  code meets at run time.
\<close>

record Updates =
  style_json :: "json option"

record EphemeralAction =
  action_id :: string
  status :: string
  layer_id :: "string option"
  bounds :: "real list option"
  error_message :: "string option"
  updates :: "Updates option"

text \<open>\<open>ErrorEntry\<close>, as \<open>addError\<close> builds it (\<open>id\<close> is \<open>id_e\<close> here).\<close>

record ErrorEntry =
  id_e :: string
  message :: string
  timestamp :: nat
  shouldOverrideMessages :: bool
  sourceId :: "string option"

record ZoomHistoryEntry =
  bounds_z :: "real list"

text \<open>A dropped \<open>File\<close>: its name and its size in bytes.\<close>

record File =
  name :: string
  size_bytes :: nat

text \<open>\<open>UploadingFile\<close>, as \<open>onDrop\<close> builds it (\<open>id\<close>, \<open>file\<close>, \<open>status\<close>, \<open>error\<close> are suffixed).\<close>

record UploadingFile =
  id_u :: string
  file_u :: File
  progress :: nat
  status_u :: string
  error_u :: "string option"

text \<open>
  Modelled from the spec: \<open>PostgresConnectionDetails\<close> is declared in \<open>lib/types\<close>, which
  is not among the sources; these are the fields \<open>LayerList\<close> reads.
\<close>

record PostgresConnectionDetails =
  connection_id :: string
  is_documented :: bool
  last_error_text :: "string option"
  processed_tables_count :: "int option"
  table_count :: "int option"

subsection \<open>The map view\<close>

text \<open>
  The MapLibre map is an external renderer. The handle offers \<open>getBounds()\<close> and
  \<open>fitBounds(bounds, options)\<close>; the model keeps the bounds it reports and the list of
  \<open>fitBounds\<close> commands it was given.
\<close>

record LngLatBounds =
  getWest :: real
  getSouth :: real
  getEast :: real
  getNorth :: real

record FitBoundsCall =
  southwest :: "real \<times> real"
  northeast :: "real \<times> real"
  animate :: bool
  padding :: "nat option"

record MLMap =
  getBounds :: LngLatBounds
  fitBounds_calls :: "FitBoundsCall list"

definition fitBounds :: "(real \<times> real) \<times> (real \<times> real) \<Rightarrow> bool \<Rightarrow> nat option \<Rightarrow> MLMap \<Rightarrow> MLMap" where
  "fitBounds b anim pad m =
     m\<lparr>fitBounds_calls := fitBounds_calls m @
         [\<lparr>southwest = fst b, northeast = snd b, animate = anim, padding = pad\<rparr>]\<rparr>"

subsection \<open>The state of \<open>ProjectView\<close>\<close>

text \<open>
  The \<open>useState\<close> and \<open>useRef\<close> cells of the component, and what it does to its
  environment: calls of \<open>invalidateMapData\<close>, \<open>toast.error\<close> and \<open>console.error\<close>,
  pending \<open>setTimeout\<close> callbacks (due time in milliseconds and the id of the error entry to
  dismiss) and uploads handed to \<open>uploadFile.mutate\<close>. The environment supplies the clock
  \<open>Date.now()\<close> and the successive values of \<open>Math.random().toString(36).substr(2, 9)\<close>.
\<close>

record state =
  errors :: "ErrorEntry list"
  activeActions :: "EphemeralAction list"
  zoomHistory :: "ZoomHistoryEntry list"
  zoomHistoryIndex :: int
  mapRef :: "MLMap option"
  processedBoundsActionIds :: "string set"
  uploadingFiles :: "UploadingFile list"
  invalidateMapData_calls :: nat
  toasts :: "string list"
  console_errors :: "string list"
  timers :: "(nat \<times> string) list"
  mutate_calls :: "(File \<times> string) list"
  now :: nat
  math_random :: "nat \<Rightarrow> string"
  random_calls :: nat

text \<open>The state of a freshly mounted component, before the map view has registered.\<close>

definition initial_state :: "nat \<Rightarrow> (nat \<Rightarrow> string) \<Rightarrow> state" where
  "initial_state t rnd =
     \<lparr>errors = [], activeActions = [], zoomHistory = [], zoomHistoryIndex = - 1,
      mapRef = None, processedBoundsActionIds = {}, uploadingFiles = [],
      invalidateMapData_calls = 0, toasts = [], console_errors = [], timers = [],
      mutate_calls = [], now = t, math_random = rnd, random_calls = 0\<rparr>"

definition invalidateMapData :: "state \<Rightarrow> state" where
  "invalidateMapData s = s\<lparr>invalidateMapData_calls := Suc (invalidateMapData_calls s)\<rparr>"

definition toast_error :: "string \<Rightarrow> state \<Rightarrow> state" where
  "toast_error msg s = s\<lparr>toasts := toasts s @ [msg]\<rparr>"

definition console_error :: "string \<Rightarrow> state \<Rightarrow> state" where
  "console_error msg s = s\<lparr>console_errors := console_errors s @ [msg]\<rparr>"

text \<open>One draw of \<open>Math.random().toString(36).substr(2, 9)\<close>.\<close>

definition random_suffix :: "state \<Rightarrow> string \<times> state" where
  "random_suffix s = (math_random s (random_calls s), s\<lparr>random_calls := Suc (random_calls s)\<rparr>)"

section \<open>The error list\<close>

text \<open>\<open>addError(message, shouldOverrideMessages = false, sourceId?)\<close>.\<close>

definition addError :: "string \<Rightarrow> bool \<Rightarrow> string option \<Rightarrow> state \<Rightarrow> state" where
  "addError msg override sid s =
     (if list_ex (\<lambda>err. message err = msg) (errors s) then s
      else
        let (rnd, s1) = random_suffix s;
            newError = \<lparr>id_e = string_of_nat (now s) @ rnd, message = msg, timestamp = now s,
                        shouldOverrideMessages = override, sourceId = sid\<rparr>;
            s2 = console_error msg s1;
            s3 = (if \<not> override then toast_error msg s2 else s2);
            s4 = s3\<lparr>timers := timers s3 @ [(now s + 30000, id_e newError)]\<rparr>
        in s4\<lparr>errors := errors s @ [newError]\<rparr>)"

text \<open>The body of the scheduled callback, and \<open>dismissError\<close>, which does the same on request.\<close>

definition dismissError :: "string \<Rightarrow> state \<Rightarrow> state" where
  "dismissError errorId s = s\<lparr>errors := filter (\<lambda>e. id_e e \<noteq> errorId) (errors s)\<rparr>"

text \<open>
  The event loop at time \<open>t\<close>: every pending callback that is due runs, in the order in
  which it was scheduled, and leaves the list of pending callbacks.
\<close>

definition run_timers :: "nat \<Rightarrow> state \<Rightarrow> state" where
  "run_timers t s =
     fold (\<lambda>(due, eid). dismissError eid)
       (filter (\<lambda>(due, eid). due \<le> t) (timers s))
       (s\<lparr>timers := filter (\<lambda>(due, eid). \<not> due \<le> t) (timers s), now := max t (now s)\<rparr>)"

section \<open>The event stream client\<close>

definition backoffMs :: "nat list" where
  "backoffMs = [30, 1000, 5000, 15000, 50000]"

definition reconnectAttempts :: nat where
  "reconnectAttempts = 2880"

definition shouldReconnect :: bool where
  "shouldReconnect = True"

text \<open>The library passes the number of attempts made so far, a natural number.\<close>

definition reconnectInterval :: "nat \<Rightarrow> nat" where
  "reconnectInterval attempt = backoffMs ! (min attempt (length backoffMs - 1))"

section \<open>The message effect\<close>

text \<open>
  \<open>lastMessage.data\<close> after \<open>JSON.parse\<close>: the parse throws, or the value is an object whose
  \<open>ephemeral\<close> field is \<open>true\<close>, or it is anything else.
\<close>

datatype inbound =
    SyntaxError
  | Ephemeral EphemeralAction
  | Regular

text \<open>
  The body of the \<open>try\<close> block either runs to its end or throws; the state updates queued
  before a throw stay queued, so both outcomes carry the state.
\<close>

datatype outcome = Done state | Threw state

text \<open>Line 281: an action that carries an error message is an error notification.\<close>

definition is_error_notification :: "EphemeralAction \<Rightarrow> bool" where
  "is_error_notification action = truthy_string (error_message action)"

text \<open>Line 288: the condition under which an action asks for a zoom.\<close>

definition wants_zoom :: "EphemeralAction \<Rightarrow> state \<Rightarrow> bool" where
  "wants_zoom action s =
     ((case bounds action of None \<Rightarrow> False | Some b \<Rightarrow> length b = 4)
      \<and> mapRef s \<noteq> None \<and> status action = ''active'')"

text \<open>
  Lines 293 to 320: record the action id, save the view's bounds and the target bounds in
  the history after the entries up to the current index, move the index by two, and
  command the view.
\<close>

definition zoom_to_bounds :: "EphemeralAction \<Rightarrow> state \<Rightarrow> state" where
  "zoom_to_bounds action s =
     (case (mapRef s, bounds action) of
        (Some m, Some b) \<Rightarrow>
          let s1 = s\<lparr>processedBoundsActionIds := insert (action_id action) (processedBoundsActionIds s)\<rparr>;
              currentBounds = getBounds m;
              currentBoundsArray = [getWest currentBounds, getSouth currentBounds,
                                    getEast currentBounds, getNorth currentBounds];
              historyUpToCurrent = slice0 (zoomHistory s1) (zoomHistoryIndex s + 1);
              s2 = s1\<lparr>zoomHistory := historyUpToCurrent @
                         [\<lparr>bounds_z = currentBoundsArray\<rparr>, \<lparr>bounds_z = b\<rparr>]\<rparr>;
              s3 = s2\<lparr>zoomHistoryIndex := zoomHistoryIndex s2 + 2\<rparr>
          in s3\<lparr>mapRef := Some (fitBounds ((b ! 0, b ! 1), (b ! 2, b ! 3)) True (Some 50) m)\<rparr>
      | _ \<Rightarrow> s)"

definition try_body :: "inbound \<Rightarrow> state \<Rightarrow> outcome" where
  "try_body update s =
     (case update of
        SyntaxError \<Rightarrow> Threw s
      | Regular \<Rightarrow> Done (invalidateMapData s)
      | Ephemeral action \<Rightarrow>
          if is_error_notification action
          then Done (addError (the (error_message action)) True None s)
          else if wants_zoom action s \<and> action_id action \<in> processedBoundsActionIds s
          then Done s
          else
            let s1 = (if wants_zoom action s then zoom_to_bounds action s else s) in
            if status action = ''active''
            then Done (s1\<lparr>activeActions := activeActions s1 @ [action]\<rparr>)
            else if status action = ''completed''
            then
              let s2 = s1\<lparr>activeActions :=
                          filter (\<lambda>a. action_id a \<noteq> action_id action) (activeActions s1)\<rparr>
              in (case updates action of
                    None \<Rightarrow> Threw s2
                  | Some u \<Rightarrow> if truthy_opt (style_json u) then Done (invalidateMapData s2) else Done s2)
            else Done s1)"

definition processing_failed :: string where
  "processing_failed = ''Failed to process update from server.''"

text \<open>The effect: nothing without a message; otherwise the body, and the \<open>catch\<close> block.\<close>

definition message_effect :: "inbound option \<Rightarrow> state \<Rightarrow> state" where
  "message_effect lastMessage s =
     (case lastMessage of
        None \<Rightarrow> s
      | Some update \<Rightarrow>
          (case try_body update s of
             Done s' \<Rightarrow> s'
           | Threw s' \<Rightarrow>
               addError processing_failed False None
                 (console_error ''Error processing WebSocket message:'' s')))"

text \<open>Messages are processed one at a time, in the order of their arrival.\<close>

definition process_all :: "inbound list \<Rightarrow> state \<Rightarrow> state" where
  "process_all ms s = fold (\<lambda>m. message_effect (Some m)) ms s"

section \<open>Zoom history navigation\<close>

text \<open>The two buttons of \<open>LayerList\<close>: previous and next location.\<close>

definition zoom_to_index :: "int \<Rightarrow> string \<Rightarrow> state \<Rightarrow> state" where
  "zoom_to_index newIndex complaint s =
     (case mapRef s of
        None \<Rightarrow> s
      | Some m \<Rightarrow>
          if 0 \<le> newIndex \<and> newIndex < int (length (zoomHistory s))
             \<and> length (bounds_z (zoomHistory s ! nat newIndex)) = 4
          then
            let targetBounds = bounds_z (zoomHistory s ! nat newIndex) in
            s\<lparr>mapRef := Some (fitBounds ((targetBounds ! 0, targetBounds ! 1),
                                           (targetBounds ! 2, targetBounds ! 3)) True None m),
              zoomHistoryIndex := newIndex\<rparr>
          else console_error complaint s)"

definition zoom_previous :: "state \<Rightarrow> state" where
  "zoom_previous s =
     (if zoomHistoryIndex s > 0 \<and> mapRef s \<noteq> None
      then zoom_to_index (zoomHistoryIndex s - 1) ''Previous zoom - invalid historyItem or bounds:'' s
      else s)"

definition zoom_next :: "state \<Rightarrow> state" where
  "zoom_next s =
     (if zoomHistoryIndex s < int (length (zoomHistory s)) - 1 \<and> mapRef s \<noteq> None
      then zoom_to_index (zoomHistoryIndex s + 1) ''Next zoom - invalid historyItem or bounds:'' s
      else s)"

section \<open>The upload queue\<close>











section \<open>Connection phases in the layer list\<close>

datatype connection_row = ErrorRow string | LoadingRow string | DocumentedRow

definition phase_label :: "PostgresConnectionDetails \<Rightarrow> string" where
  "phase_label connection =
     (let processed = nullish (processed_tables_count connection) 0;
          total = nullish (table_count connection) 0
      in if processed = 0 \<and> total = 0 then ''Connecting...''
         else if processed < total then ''Querying tables...'' else ''Summarizing...'')"

definition render_connection :: "PostgresConnectionDetails \<Rightarrow> connection_row" where
  "render_connection connection =
     (if truthy_string (last_error_text connection) then ErrorRow (the (last_error_text connection))
      else if \<not> is_documented connection then LoadingRow (phase_label connection)
      else DocumentedRow)"

section \<open>Notions used by the properties\<close>

text \<open>The history index is -1 for an empty history and points at an entry otherwise.\<close>

definition history_ok :: "state \<Rightarrow> bool" where
  "history_ok s =
     (- 1 \<le> zoomHistoryIndex s \<and> zoomHistoryIndex s < int (length (zoomHistory s)))"

text \<open>An out-of-order pair: a completed event and the active event of the same action.\<close>

definition out_of_order_pair :: "EphemeralAction \<times> EphemeralAction \<Rightarrow> bool" where
  "out_of_order_pair p =
     (case p of (c, a) \<Rightarrow>
        status c = ''completed'' \<and> status a = ''active'' \<and> action_id a = action_id c)"

text \<open>The messages of a list of such pairs, in the order of their arrival.\<close>

fun arrivals :: "(EphemeralAction \<times> EphemeralAction) list \<Rightarrow> inbound list" where
  "arrivals [] = []"
| "arrivals ((c, a) # ps) = Ephemeral c # Ephemeral a # arrivals ps"


section \<open>Concrete inputs\<close>

text \<open>A map view showing the square from (-5, -5) to (5, 5), with no command given yet.\<close>

definition example_map :: MLMap where
  "example_map =
     \<lparr>getBounds = \<lparr>getWest = - 5, getSouth = - 5, getEast = 5, getNorth = 5\<rparr>,
      fitBounds_calls = []\<rparr>"

text \<open>A session that has just started at time 0; then the map view registers.\<close>

definition fresh_session :: state where
  "fresh_session = initial_state 0 (\<lambda>i. ''k3x9'')"

definition example_state :: state where
  "example_state = fresh_session \<lparr>mapRef := Some example_map\<rparr>"

text \<open>The two messages of the specification's example.\<close>

definition a1_active :: EphemeralAction where
  "a1_active =
     \<lparr>action_id = ''a1'', status = ''active'', layer_id = None,
      bounds = Some [0, 0, 10, 10], error_message = None, updates = None\<rparr>"

definition a1_completed :: EphemeralAction where
  "a1_completed =
     \<lparr>action_id = ''a1'', status = ''completed'', layer_id = None,
      bounds = None, error_message = None, updates = Some \<lparr>style_json = Some (JObj [])\<rparr>\<rparr>"

text \<open>A session whose zoom history holds three entries, with the index at the first.\<close>

definition abc_state :: state where
  "abc_state = example_state
     \<lparr>zoomHistory := [\<lparr>bounds_z = [0, 0, 1, 1]\<rparr>, \<lparr>bounds_z = [0, 0, 2, 2]\<rparr>,
                      \<lparr>bounds_z = [0, 0, 3, 3]\<rparr>],
      zoomHistoryIndex := 0\<rparr>"



section \<open>Basic facts\<close>

lemma string_of_nat_digit: "n < 10 \<Longrightarrow> string_of_nat n = [''0123456789'' ! n]"
  by (simp add: string_of_nat.simps)

lemma slice0_take: "- 1 \<le> i \<Longrightarrow> slice0 xs (i + 1) = take (nat (i + 1)) xs"
  by (auto simp: slice0_def Let_def min_def)

lemma addError_frame:
  "activeActions (addError msg ov sid s) = activeActions s"
  "zoomHistory (addError msg ov sid s) = zoomHistory s"
  "zoomHistoryIndex (addError msg ov sid s) = zoomHistoryIndex s"
  "mapRef (addError msg ov sid s) = mapRef s"
  "processedBoundsActionIds (addError msg ov sid s) = processedBoundsActionIds s"
  "uploadingFiles (addError msg ov sid s) = uploadingFiles s"
  "invalidateMapData_calls (addError msg ov sid s) = invalidateMapData_calls s"
  "now (addError msg ov sid s) = now s"
  by (simp_all add: addError_def random_suffix_def console_error_def toast_error_def Let_def)

lemma console_error_frame:
  "activeActions (console_error msg s) = activeActions s"
  "zoomHistory (console_error msg s) = zoomHistory s"
  "zoomHistoryIndex (console_error msg s) = zoomHistoryIndex s"
  "mapRef (console_error msg s) = mapRef s"
  "processedBoundsActionIds (console_error msg s) = processedBoundsActionIds s"
  "invalidateMapData_calls (console_error msg s) = invalidateMapData_calls s"
  "errors (console_error msg s) = errors s"
  by (simp_all add: console_error_def)

lemma addError_new:
  assumes "\<not> list_ex (\<lambda>e. message e = M) (errors s)"
  shows "errors (addError M ov sid s) = errors s @
           [\<lparr>id_e = string_of_nat (now s) @ math_random s (random_calls s), message = M,
             timestamp = now s, shouldOverrideMessages = ov, sourceId = sid\<rparr>]"
    and "timers (addError M ov sid s) = timers s @
           [(now s + 30000, string_of_nat (now s) @ math_random s (random_calls s))]"
  using assms
  by (simp_all add: addError_def random_suffix_def console_error_def toast_error_def Let_def)

lemma process_all_Nil: "process_all [] s = s"
  by (simp add: process_all_def)

lemma process_all_Cons: "process_all (m # ms) s = process_all ms (message_effect (Some m) s)"
  by (simp add: process_all_def)

text \<open>An error notification is reported and nothing else happens.\<close>

lemma error_notification_effect:
  "is_error_notification a \<Longrightarrow>
     message_effect (Some (Ephemeral a)) s = addError (the (error_message a)) True None s"
  by (simp add: message_effect_def try_body_def)

text \<open>What an action does when it asks for a zoom and its id has not been processed.\<close>

lemma zoom_effect:
  assumes "status a = ''active''" and "bounds a = Some b" and "length b = 4"
    and "mapRef s = Some m" and "action_id a \<notin> processedBoundsActionIds s"
    and "\<not> is_error_notification a"
  shows "message_effect (Some (Ephemeral a)) s =
     s\<lparr>processedBoundsActionIds := insert (action_id a) (processedBoundsActionIds s),
       zoomHistory := slice0 (zoomHistory s) (zoomHistoryIndex s + 1) @
          [\<lparr>bounds_z = [getWest (getBounds m), getSouth (getBounds m),
                         getEast (getBounds m), getNorth (getBounds m)]\<rparr>,
           \<lparr>bounds_z = b\<rparr>],
       zoomHistoryIndex := zoomHistoryIndex s + 2,
       mapRef := Some (fitBounds ((b ! 0, b ! 1), (b ! 2, b ! 3)) True (Some 50) m),
       activeActions := activeActions s @ [a]\<rparr>"
  using assms
  by (simp add: message_effect_def try_body_def wants_zoom_def zoom_to_bounds_def Let_def)

text \<open>Without a map view handle no message zooms.\<close>

lemma no_handle_no_zoom:
  assumes "mapRef s = None"
  shows "mapRef (message_effect lastMessage s) = None
         \<and> zoomHistory (message_effect lastMessage s) = zoomHistory s
         \<and> zoomHistoryIndex (message_effect lastMessage s) = zoomHistoryIndex s"
  using assms
  by (auto simp: message_effect_def try_body_def wants_zoom_def addError_frame console_error_frame
      invalidateMapData_def Let_def split: option.splits inbound.splits)

text \<open>The set of processed ids only grows.\<close>

lemma processed_mono:
  "x \<in> processedBoundsActionIds s \<Longrightarrow> x \<in> processedBoundsActionIds (message_effect lm s)"
  by (auto simp: message_effect_def try_body_def zoom_to_bounds_def addError_frame
      console_error_frame invalidateMapData_def Let_def wants_zoom_def
      split: option.splits inbound.splits outcome.splits if_splits)

lemma process_all_processed_mono:
  "x \<in> processedBoundsActionIds s \<Longrightarrow> x \<in> processedBoundsActionIds (process_all ms s)"
  by (induction ms arbitrary: s) (simp_all add: process_all_Nil process_all_Cons processed_mono)

text \<open>
  The effect depends on the history index, so React runs it again for the same message
  once a zoom has moved the index; the second run finds the id in the set and returns.
\<close>

lemma effect_rerun_after_zoom:
  assumes "status a = ''active''" and "bounds a = Some b" and "length b = 4"
    and "mapRef s = Some m" and "action_id a \<notin> processedBoundsActionIds s"
    and "\<not> is_error_notification a"
  shows "message_effect (Some (Ephemeral a)) (message_effect (Some (Ephemeral a)) s)
           = message_effect (Some (Ephemeral a)) s"
proof -
  let ?s1 = "s\<lparr>processedBoundsActionIds := insert (action_id a) (processedBoundsActionIds s),
       zoomHistory := slice0 (zoomHistory s) (zoomHistoryIndex s + 1) @
          [\<lparr>bounds_z = [getWest (getBounds m), getSouth (getBounds m),
                         getEast (getBounds m), getNorth (getBounds m)]\<rparr>,
           \<lparr>bounds_z = b\<rparr>],
       zoomHistoryIndex := zoomHistoryIndex s + 2,
       mapRef := Some (fitBounds ((b ! 0, b ! 1), (b ! 2, b ! 3)) True (Some 50) m),
       activeActions := activeActions s @ [a]\<rparr>"
  have first: "message_effect (Some (Ephemeral a)) s = ?s1"
    using assms by (rule zoom_effect)
  have "message_effect (Some (Ephemeral a)) ?s1 = ?s1"
    using assms by (simp add: message_effect_def try_body_def wants_zoom_def)
  with first show ?thesis by simp
qed

text \<open>An action whose id has been processed leaves the zoom state alone, whatever it carries.\<close>

lemma zoom_state_kept:
  assumes "action_id a \<in> processedBoundsActionIds s"
  shows "zoomHistory (message_effect (Some (Ephemeral a)) s) = zoomHistory s"
    and "zoomHistoryIndex (message_effect (Some (Ephemeral a)) s) = zoomHistoryIndex s"
    and "mapRef (message_effect (Some (Ephemeral a)) s) = mapRef s"
  using assms
  by (auto simp: message_effect_def try_body_def addError_frame console_error_frame
      invalidateMapData_def Let_def split: option.splits)

text \<open>
  The index stays within the history under every message and under both navigation
  buttons, so \<open>slice(0, zoomHistoryIndex + 1)\<close> never sees a negative end.
\<close>

lemma history_ok_initial: "history_ok (initial_state t rnd)"
  by (simp add: history_ok_def initial_state_def)

lemma history_ok_message_effect: "history_ok s \<Longrightarrow> history_ok (message_effect lastMessage s)"
  by (auto simp: history_ok_def message_effect_def try_body_def zoom_to_bounds_def wants_zoom_def
      addError_frame console_error_frame invalidateMapData_def slice0_def Let_def min_def
      split: option.splits inbound.splits)

lemma history_ok_navigation:
  "history_ok s \<Longrightarrow> history_ok (zoom_previous s) \<and> history_ok (zoom_next s)"
  by (auto simp: history_ok_def zoom_previous_def zoom_next_def zoom_to_index_def
      console_error_frame Let_def split: option.splits)

lemma navigation_keeps_history:
  "zoomHistory (zoom_previous s) = zoomHistory s \<and> zoomHistory (zoom_next s) = zoomHistory s"
  by (auto simp: zoom_previous_def zoom_next_def zoom_to_index_def console_error_frame Let_def
      split: option.splits)

section \<open>Connection phases\<close>

text \<open>
  C7. A polled connection without error text (absent or empty) that is not yet documented
  is shown as loading, and its phase label is "Connecting..." when both counts are 0 (an
  absent count is 0), "Querying tables..." when fewer tables are processed than there are,
  and "Summarizing..." otherwise, that is when the processed count has reached the total
  and the two are not both 0.
\<close>

theorem connection_phase_inferred:
  assumes "\<not> truthy_string (last_error_text c)" and "\<not> is_documented c"
  shows "render_connection c = LoadingRow
     (if nullish (processed_tables_count c) 0 = 0 \<and> nullish (table_count c) 0 = 0
      then ''Connecting...''
      else if nullish (processed_tables_count c) 0 < nullish (table_count c) 0
      then ''Querying tables...''
      else ''Summarizing...'')"
  using assms by (simp add: render_connection_def phase_label_def Let_def)

theorem connection_phase_inferred_witness:
  "render_connection \<lparr>connection_id = ''pg1'', is_documented = False, last_error_text = None,
      processed_tables_count = Some 3, table_count = Some 7\<rparr> = LoadingRow ''Querying tables...''
   \<and> render_connection \<lparr>connection_id = ''pg1'', is_documented = False, last_error_text = None,
      processed_tables_count = Some 7, table_count = Some 7\<rparr> = LoadingRow ''Summarizing...''
   \<and> render_connection \<lparr>connection_id = ''pg1'', is_documented = False, last_error_text = None,
      processed_tables_count = None, table_count = Some 0\<rparr> = LoadingRow ''Connecting...''"
  using
    connection_phase_inferred [of "\<lparr>connection_id = ''pg1'', is_documented = False,
      last_error_text = None, processed_tables_count = Some 3, table_count = Some 7\<rparr>"]
    connection_phase_inferred [of "\<lparr>connection_id = ''pg1'', is_documented = False,
      last_error_text = None, processed_tables_count = Some 7, table_count = Some 7\<rparr>"]
    connection_phase_inferred [of "\<lparr>connection_id = ''pg1'', is_documented = False,
      last_error_text = None, processed_tables_count = None, table_count = Some 0\<rparr>"]
  by (simp add: truthy_string_def nullish_def)

section \<open>Reconnection\<close>

text \<open>
  C8. The delay before reconnection attempt n is the entry of the ladder 30 ms, 1 s, 5 s,
  15 s, 50 s at index n, and 50 s for every n at or beyond the end of the ladder; the
  number of attempts handed to the socket library is the finite bound 2880, and every
  close asks for a reconnect.
\<close>

theorem reconnect_delay_ladder:
  "reconnectInterval 0 = 30 \<and> reconnectInterval 1 = 1000 \<and> reconnectInterval 2 = 5000
   \<and> reconnectInterval 3 = 15000 \<and> reconnectInterval 4 = 50000
   \<and> (\<forall>n. n < length backoffMs \<longrightarrow> reconnectInterval n = backoffMs ! n)
   \<and> (\<forall>n. length backoffMs - 1 \<le> n \<longrightarrow> reconnectInterval n = 50000)
   \<and> reconnectAttempts = 2880 \<and> shouldReconnect"
  by (simp add: reconnectInterval_def backoffMs_def reconnectAttempts_def shouldReconnect_def min_def)

theorem reconnect_delay_ladder_witness:
  "(2::nat) < length backoffMs \<and> reconnectInterval 2 = backoffMs ! 2
   \<and> length backoffMs - 1 \<le> (1000::nat) \<and> reconnectInterval 1000 = 50000"
  using reconnect_delay_ladder by (simp add: backoffMs_def)

section \<open>The guard on processed action ids\<close>

text \<open>
  C9, as stated: an event with status "active", four bounds, the map view handle
  available and its action id in the set of processed ids changes no state at all. An
  event that meets all four conditions and also carries an error message is an error
  notification: the effect returns at line 284, before the guard, and has by then added
  an error entry.
\<close>

theorem error_notification_with_processed_id_counterexample:
  "status (a1_active\<lparr>error_message := Some ''boom''\<rparr>) = ''active''
   \<and> bounds (a1_active\<lparr>error_message := Some ''boom''\<rparr>) = Some [0, 0, 10, 10]
   \<and> mapRef (example_state\<lparr>processedBoundsActionIds := {''a1''}\<rparr>) = Some example_map
   \<and> action_id (a1_active\<lparr>error_message := Some ''boom''\<rparr>)
       \<in> processedBoundsActionIds (example_state\<lparr>processedBoundsActionIds := {''a1''}\<rparr>)
   \<and> errors (example_state\<lparr>processedBoundsActionIds := {''a1''}\<rparr>) = []
   \<and> map message (errors (message_effect (Some (Ephemeral (a1_active\<lparr>error_message := Some ''boom''\<rparr>)))
        (example_state\<lparr>processedBoundsActionIds := {''a1''}\<rparr>))) = [''boom'']
   \<and> message_effect (Some (Ephemeral (a1_active\<lparr>error_message := Some ''boom''\<rparr>)))
        (example_state\<lparr>processedBoundsActionIds := {''a1''}\<rparr>)
       \<noteq> example_state\<lparr>processedBoundsActionIds := {''a1''}\<rparr>"
proof -
  let ?e = "a1_active\<lparr>error_message := Some ''boom''\<rparr>"
  let ?s = "example_state\<lparr>processedBoundsActionIds := {''a1''}\<rparr>"
  have before: "errors ?s = []"
    by (simp add: example_state_def fresh_session_def initial_state_def)
  have after: "map message (errors (message_effect (Some (Ephemeral ?e)) ?s)) = [''boom'']"
    by (simp add: message_effect_def try_body_def is_error_notification_def truthy_string_def
        addError_def random_suffix_def console_error_def a1_active_def example_state_def
        fresh_session_def initial_state_def Let_def)
  from before after have "message_effect (Some (Ephemeral ?e)) ?s \<noteq> ?s"
    by auto
  with before after show ?thesis
    by (simp add: a1_active_def example_state_def)
qed

text \<open>
  C9, amended. An event with status "active" that is not an error notification (it
  carries no error message), has four bounds, arrives while the map view handle is
  available and whose action id is already in the set of processed ids changes nothing:
  the state after the effect is the state before it, so in particular the action is not
  appended to the active actions.
\<close>

theorem processed_action_changes_nothing:
  assumes "status action = ''active''"
    and "bounds action = Some b" and "length b = 4"
    and "mapRef s = Some m"
    and "action_id action \<in> processedBoundsActionIds s"
    and "\<not> is_error_notification action"
  shows "message_effect (Some (Ephemeral action)) s = s
         \<and> activeActions (message_effect (Some (Ephemeral action)) s) = activeActions s"
  using assms by (simp add: message_effect_def try_body_def wants_zoom_def)

theorem processed_action_changes_nothing_witness:
  "status a1_active = ''active'' \<and> bounds a1_active = Some [0, 0, 10, 10]
   \<and> mapRef (example_state\<lparr>processedBoundsActionIds := {''a1''}\<rparr>) = Some example_map
   \<and> action_id a1_active \<in> processedBoundsActionIds (example_state\<lparr>processedBoundsActionIds := {''a1''}\<rparr>)
   \<and> \<not> is_error_notification a1_active
   \<and> message_effect (Some (Ephemeral a1_active)) (example_state\<lparr>processedBoundsActionIds := {''a1''}\<rparr>)
       = example_state\<lparr>processedBoundsActionIds := {''a1''}\<rparr>"
  using processed_action_changes_nothing
    [of a1_active "[0, 0, 10, 10]" "example_state\<lparr>processedBoundsActionIds := {''a1''}\<rparr>" example_map]
  by (simp add: a1_active_def example_state_def is_error_notification_def truthy_string_def)

section \<open>Zoom history\<close>

text \<open>
  C1, as stated: from the history [A, B, C] with index 0, the event that zooms to D gives
  the history [A, D] with index 1. It does not: with A = [0,0,1,1], D = [0,0,10,10] and
  the view at [-5,-5,5,5], the history becomes [A, view, D] and the index 2.
\<close>

theorem push_after_first_entry_counterexample:
  "zoomHistory (message_effect (Some (Ephemeral a1_active)) abc_state)
     = [\<lparr>bounds_z = [0, 0, 1, 1]\<rparr>, \<lparr>bounds_z = [- 5, - 5, 5, 5]\<rparr>, \<lparr>bounds_z = [0, 0, 10, 10]\<rparr>]
   \<and> zoomHistoryIndex (message_effect (Some (Ephemeral a1_active)) abc_state) = 2
   \<and> \<not> (zoomHistory (message_effect (Some (Ephemeral a1_active)) abc_state)
            = [\<lparr>bounds_z = [0, 0, 1, 1]\<rparr>, \<lparr>bounds_z = [0, 0, 10, 10]\<rparr>]
          \<and> zoomHistoryIndex (message_effect (Some (Ephemeral a1_active)) abc_state) = 1)"
  by (simp add: message_effect_def try_body_def wants_zoom_def zoom_to_bounds_def abc_state_def
      example_state_def fresh_session_def initial_state_def example_map_def a1_active_def
      is_error_notification_def truthy_string_def slice0_def Let_def)

text \<open>
  C1, amended. An event that zooms to bounds D (status "active", not an error
  notification, four bounds, map view available, action id not yet processed) keeps the
  history entries up to the current index, discards every entry beyond it, and appends two
  entries: the bounds the view had before the zoom, then D; the index moves by two, to the
  entry of D. From [A, B, C] with index 0 the history becomes [A, view, D] with index 2.
\<close>

theorem push_discards_forward_entries:
  assumes "status a = ''active''" and "bounds a = Some d" and "length d = 4"
    and "\<not> is_error_notification a" and "mapRef s = Some m"
    and "action_id a \<notin> processedBoundsActionIds s"
    and "- 1 \<le> zoomHistoryIndex s"
  shows "zoomHistory (message_effect (Some (Ephemeral a)) s)
           = take (nat (zoomHistoryIndex s + 1)) (zoomHistory s) @
             [\<lparr>bounds_z = [getWest (getBounds m), getSouth (getBounds m),
                            getEast (getBounds m), getNorth (getBounds m)]\<rparr>,
              \<lparr>bounds_z = d\<rparr>]
       \<and> zoomHistoryIndex (message_effect (Some (Ephemeral a)) s) = zoomHistoryIndex s + 2
       \<and> (\<forall>A B C. zoomHistory s = [A, B, C] \<and> zoomHistoryIndex s = 0 \<longrightarrow>
            zoomHistory (message_effect (Some (Ephemeral a)) s)
              = [A, \<lparr>bounds_z = [getWest (getBounds m), getSouth (getBounds m),
                                 getEast (getBounds m), getNorth (getBounds m)]\<rparr>,
                 \<lparr>bounds_z = d\<rparr>]
            \<and> zoomHistoryIndex (message_effect (Some (Ephemeral a)) s) = 2)"
  using assms by (auto simp: zoom_effect slice0_def Let_def min_def)

theorem push_discards_forward_entries_witness:
  "status a1_active = ''active'' \<and> bounds a1_active = Some [0, 0, 10, 10]
   \<and> \<not> is_error_notification a1_active \<and> mapRef abc_state = Some example_map
   \<and> action_id a1_active \<notin> processedBoundsActionIds abc_state
   \<and> - 1 \<le> zoomHistoryIndex abc_state
   \<and> zoomHistory (message_effect (Some (Ephemeral a1_active)) abc_state)
       = take 1 (zoomHistory abc_state) @
         [\<lparr>bounds_z = [- 5, - 5, 5, 5]\<rparr>, \<lparr>bounds_z = [0, 0, 10, 10]\<rparr>]
   \<and> zoomHistoryIndex (message_effect (Some (Ephemeral a1_active)) abc_state) = 2"
  using push_discards_forward_entries [of a1_active "[0, 0, 10, 10]" abc_state example_map]
  by (simp add: a1_active_def abc_state_def example_state_def fresh_session_def
      initial_state_def example_map_def is_error_notification_def truthy_string_def)

section \<open>One zoom for each action id\<close>

text \<open>
  C2, as stated: of two events with the same action id and four bounds, only the first
  zooms and the second leaves the zoom history, the index and the map view untouched.
  Three pairs for the action a1, all with the bounds [0,0,10,10], show otherwise; in each
  the first event does not zoom and records nothing, and the second one commands the view
  and pushes two history entries. In the first pair the events arrive out of order, the
  completed one first (line 288 asks for status "active"). In the second pair the same
  active event arrives twice, before and after the map view has registered. In the third
  pair the first event carries an error message.
\<close>

theorem second_event_zooms_counterexample:
  "action_id (a1_completed\<lparr>bounds := Some [0, 0, 10, 10]\<rparr>) = action_id a1_active
   \<and> bounds (a1_completed\<lparr>bounds := Some [0, 0, 10, 10]\<rparr>) = bounds a1_active
   \<and> bounds a1_active = Some [0, 0, 10, 10]
   \<and> mapRef (message_effect (Some (Ephemeral (a1_completed\<lparr>bounds := Some [0, 0, 10, 10]\<rparr>)))
        example_state) = Some example_map
   \<and> zoomHistory (message_effect (Some (Ephemeral (a1_completed\<lparr>bounds := Some [0, 0, 10, 10]\<rparr>)))
        example_state) = []
   \<and> mapRef (message_effect (Some (Ephemeral a1_active))
        (message_effect (Some (Ephemeral (a1_completed\<lparr>bounds := Some [0, 0, 10, 10]\<rparr>)))
          example_state))
       = Some (fitBounds ((0, 0), (10, 10)) True (Some 50) example_map)
   \<and> zoomHistory (message_effect (Some (Ephemeral a1_active))
        (message_effect (Some (Ephemeral (a1_completed\<lparr>bounds := Some [0, 0, 10, 10]\<rparr>)))
          example_state))
       = [\<lparr>bounds_z = [- 5, - 5, 5, 5]\<rparr>, \<lparr>bounds_z = [0, 0, 10, 10]\<rparr>]
   \<and> zoomHistoryIndex (message_effect (Some (Ephemeral a1_active))
        (message_effect (Some (Ephemeral (a1_completed\<lparr>bounds := Some [0, 0, 10, 10]\<rparr>)))
          example_state)) = 1
   \<and> mapRef (message_effect (Some (Ephemeral a1_active)) fresh_session) = None
   \<and> zoomHistory (message_effect (Some (Ephemeral a1_active)) fresh_session) = []
   \<and> mapRef (message_effect (Some (Ephemeral a1_active))
        ((message_effect (Some (Ephemeral a1_active)) fresh_session)\<lparr>mapRef := Some example_map\<rparr>))
       = Some (fitBounds ((0, 0), (10, 10)) True (Some 50) example_map)
   \<and> zoomHistory (message_effect (Some (Ephemeral a1_active))
        ((message_effect (Some (Ephemeral a1_active)) fresh_session)\<lparr>mapRef := Some example_map\<rparr>))
       = [\<lparr>bounds_z = [- 5, - 5, 5, 5]\<rparr>, \<lparr>bounds_z = [0, 0, 10, 10]\<rparr>]
   \<and> mapRef (message_effect (Some (Ephemeral (a1_active\<lparr>error_message := Some ''boom''\<rparr>)))
        example_state) = Some example_map
   \<and> zoomHistory (message_effect (Some (Ephemeral (a1_active\<lparr>error_message := Some ''boom''\<rparr>)))
        example_state) = []
   \<and> mapRef (message_effect (Some (Ephemeral a1_active))
        (message_effect (Some (Ephemeral (a1_active\<lparr>error_message := Some ''boom''\<rparr>)))
          example_state))
       = Some (fitBounds ((0, 0), (10, 10)) True (Some 50) example_map)
   \<and> zoomHistory (message_effect (Some (Ephemeral a1_active))
        (message_effect (Some (Ephemeral (a1_active\<lparr>error_message := Some ''boom''\<rparr>)))
          example_state))
       = [\<lparr>bounds_z = [- 5, - 5, 5, 5]\<rparr>, \<lparr>bounds_z = [0, 0, 10, 10]\<rparr>]"
  by (simp add: message_effect_def try_body_def wants_zoom_def zoom_to_bounds_def
      is_error_notification_def truthy_string_def truthy_opt_def invalidateMapData_def
      addError_def random_suffix_def console_error_def
      a1_active_def a1_completed_def example_state_def fresh_session_def initial_state_def
      example_map_def slice0_def Let_def)

text \<open>
  C2, amended. Two events carry the same action id, and the first is one that can zoom:
  it has status "active", is not an error notification and carries four bounds, and the
  map view handle is available. Then the first event is the only one that zooms: if its
  id has not been processed before, it commands the view once and pushes the two history
  entries; the second event, whatever it carries and however many messages arrive in
  between, leaves the zoom history, the history index and the map view as they were.
\<close>

theorem zoom_once_per_action_id:
  assumes "action_id a2 = action_id a1"
    and "status a1 = ''active''" and "bounds a1 = Some b1" and "length b1 = 4"
    and "\<not> is_error_notification a1"
    and "mapRef s = Some m"
  shows "(action_id a1 \<notin> processedBoundsActionIds s \<longrightarrow>
            mapRef (message_effect (Some (Ephemeral a1)) s)
              = Some (fitBounds ((b1 ! 0, b1 ! 1), (b1 ! 2, b1 ! 3)) True (Some 50) m)
            \<and> zoomHistory (message_effect (Some (Ephemeral a1)) s)
                = slice0 (zoomHistory s) (zoomHistoryIndex s + 1) @
                  [\<lparr>bounds_z = [getWest (getBounds m), getSouth (getBounds m),
                                 getEast (getBounds m), getNorth (getBounds m)]\<rparr>,
                   \<lparr>bounds_z = b1\<rparr>]
            \<and> zoomHistoryIndex (message_effect (Some (Ephemeral a1)) s) = zoomHistoryIndex s + 2)
       \<and> zoomHistory (message_effect (Some (Ephemeral a2))
            (process_all ms (message_effect (Some (Ephemeral a1)) s)))
           = zoomHistory (process_all ms (message_effect (Some (Ephemeral a1)) s))
       \<and> zoomHistoryIndex (message_effect (Some (Ephemeral a2))
            (process_all ms (message_effect (Some (Ephemeral a1)) s)))
           = zoomHistoryIndex (process_all ms (message_effect (Some (Ephemeral a1)) s))
       \<and> mapRef (message_effect (Some (Ephemeral a2))
            (process_all ms (message_effect (Some (Ephemeral a1)) s)))
           = mapRef (process_all ms (message_effect (Some (Ephemeral a1)) s))"
proof -
  let ?s1 = "message_effect (Some (Ephemeral a1)) s"
  have first: "action_id a1 \<notin> processedBoundsActionIds s \<Longrightarrow>
      ?s1 = s\<lparr>processedBoundsActionIds := insert (action_id a1) (processedBoundsActionIds s),
         zoomHistory := slice0 (zoomHistory s) (zoomHistoryIndex s + 1) @
            [\<lparr>bounds_z = [getWest (getBounds m), getSouth (getBounds m),
                           getEast (getBounds m), getNorth (getBounds m)]\<rparr>,
             \<lparr>bounds_z = b1\<rparr>],
         zoomHistoryIndex := zoomHistoryIndex s + 2,
         mapRef := Some (fitBounds ((b1 ! 0, b1 ! 1), (b1 ! 2, b1 ! 3)) True (Some 50) m),
         activeActions := activeActions s @ [a1]\<rparr>"
    using assms by (simp add: zoom_effect)
  have "action_id a1 \<in> processedBoundsActionIds ?s1"
  proof (cases "action_id a1 \<in> processedBoundsActionIds s")
    case True
    then show ?thesis by (rule processed_mono)
  next
    case False
    then show ?thesis by (simp add: first)
  qed
  then have "action_id a2 \<in> processedBoundsActionIds (process_all ms ?s1)"
    using assms(1) by (simp add: process_all_processed_mono)
  then have second:
    "zoomHistory (message_effect (Some (Ephemeral a2)) (process_all ms ?s1)) = zoomHistory (process_all ms ?s1)"
    "zoomHistoryIndex (message_effect (Some (Ephemeral a2)) (process_all ms ?s1)) = zoomHistoryIndex (process_all ms ?s1)"
    "mapRef (message_effect (Some (Ephemeral a2)) (process_all ms ?s1)) = mapRef (process_all ms ?s1)"
    by (simp_all add: zoom_state_kept)
  show ?thesis
  proof (cases "action_id a1 \<in> processedBoundsActionIds s")
    case True
    with second show ?thesis by simp
  next
    case False
    with second show ?thesis by (simp add: first)
  qed
qed

theorem zoom_once_per_action_id_witness:
  "status a1_active = ''active'' \<and> bounds a1_active = Some [0, 0, 10, 10]
   \<and> \<not> is_error_notification a1_active \<and> mapRef example_state = Some example_map
   \<and> action_id a1_active \<notin> processedBoundsActionIds example_state
   \<and> mapRef (message_effect (Some (Ephemeral a1_active)) example_state)
       = Some (fitBounds ((0, 0), (10, 10)) True (Some 50) example_map)
   \<and> zoomHistoryIndex (message_effect (Some (Ephemeral a1_active)) example_state) = 1
   \<and> zoomHistory (message_effect (Some (Ephemeral a1_active))
        (process_all [Regular] (message_effect (Some (Ephemeral a1_active)) example_state)))
       = zoomHistory (process_all [Regular] (message_effect (Some (Ephemeral a1_active)) example_state))
   \<and> zoomHistoryIndex (message_effect (Some (Ephemeral a1_active))
        (process_all [Regular] (message_effect (Some (Ephemeral a1_active)) example_state)))
       = zoomHistoryIndex (process_all [Regular] (message_effect (Some (Ephemeral a1_active)) example_state))
   \<and> mapRef (message_effect (Some (Ephemeral a1_active))
        (process_all [Regular] (message_effect (Some (Ephemeral a1_active)) example_state)))
       = mapRef (process_all [Regular] (message_effect (Some (Ephemeral a1_active)) example_state))"
  using zoom_once_per_action_id
    [of a1_active a1_active "[0, 0, 10, 10]" example_state example_map "[Regular]"]
  by (simp add: a1_active_def example_state_def fresh_session_def initial_state_def is_error_notification_def
      truthy_string_def)

section \<open>Active actions\<close>

lemma completed_removes:
  assumes "status c = ''completed''" and "\<not> is_error_notification c"
  shows "activeActions (message_effect (Some (Ephemeral c)) s)
           = filter (\<lambda>a. action_id a \<noteq> action_id c) (activeActions s)"
  using assms
  by (auto simp: message_effect_def try_body_def wants_zoom_def addError_frame console_error_frame
      invalidateMapData_def Let_def split: option.splits)

lemma active_appends_at_most_once:
  assumes "status a = ''active''"
  shows "activeActions (message_effect (Some (Ephemeral a)) s) = activeActions s
       \<or> activeActions (message_effect (Some (Ephemeral a)) s) = activeActions s @ [a]"
  using assms
  by (auto simp: message_effect_def try_body_def addError_frame zoom_to_bounds_def
      Let_def split: option.splits)

lemma completed_removes_or_keeps:
  assumes "status c = ''completed''"
  shows "activeActions (message_effect (Some (Ephemeral c)) s) = activeActions s
       \<or> activeActions (message_effect (Some (Ephemeral c)) s)
           = filter (\<lambda>a. action_id a \<noteq> action_id c) (activeActions s)"
proof (cases "is_error_notification c")
  case True
  then show ?thesis by (simp add: error_notification_effect addError_frame)
next
  case False
  with assms show ?thesis by (simp add: completed_removes)
qed

text \<open>A pair whose completed event is not an error notification.\<close>

lemma ordinary_pair_step:
  assumes "distinct (map action_id (activeActions s))" and "out_of_order_pair (c, a)"
    and "\<not> is_error_notification c"
  shows "distinct (map action_id (activeActions (message_effect (Some (Ephemeral c)) s)))"
    and "distinct (map action_id (activeActions
           (message_effect (Some (Ephemeral a)) (message_effect (Some (Ephemeral c)) s))))"
proof -
  let ?s1 = "message_effect (Some (Ephemeral c)) s"
  from assms have rem:
    "activeActions ?s1 = filter (\<lambda>x. action_id x \<noteq> action_id c) (activeActions s)"
    by (simp add: out_of_order_pair_def completed_removes)
  from assms(1) show d1: "distinct (map action_id (activeActions ?s1))"
    unfolding rem by (simp add: distinct_map_filter)
  have notin: "action_id a \<notin> set (map action_id (activeActions ?s1))"
    using assms(2) unfolding rem by (auto simp: out_of_order_pair_def)
  from assms(2) have "status a = ''active''"
    by (simp add: out_of_order_pair_def)
  from active_appends_at_most_once [OF this, of ?s1] d1 notin
  show "distinct (map action_id (activeActions (message_effect (Some (Ephemeral a)) ?s1)))"
    by auto
qed

lemma ordinary_pairs_keep_distinct:
  assumes "distinct (map action_id (activeActions s))" and "list_all out_of_order_pair ps"
    and "\<forall>p\<in>set ps. \<not> is_error_notification (fst p)"
  shows "distinct (map action_id (activeActions (process_all (take n (arrivals ps)) s)))"
  using assms
proof (induction ps arbitrary: s n)
  case Nil
  then show ?case by (simp add: process_all_Nil)
next
  case (Cons p ps)
  obtain c a where p: "p = (c, a)" by (cases p)
  from Cons.prems p have ca: "out_of_order_pair (c, a)" and ord: "\<not> is_error_notification c"
    and rest: "list_all out_of_order_pair ps" "\<forall>p\<in>set ps. \<not> is_error_notification (fst p)"
    by simp_all
  note d = ordinary_pair_step [OF Cons.prems(1) ca ord]
  show ?case
  proof (cases n)
    case 0
    with Cons.prems show ?thesis by (simp add: process_all_Nil)
  next
    case (Suc k)
    show ?thesis
    proof (cases k)
      case 0
      with Suc p d(1) show ?thesis by (simp add: process_all_Nil process_all_Cons)
    next
      case (Suc j)
      with \<open>n = Suc k\<close> p Cons.IH [OF d(2) rest, of j] show ?thesis
        by (simp add: process_all_Cons)
    qed
  qed
qed

text \<open>A pair whose action id is not among the active actions.\<close>

lemma fresh_pair_step:
  assumes "distinct (map action_id (activeActions s))" and "out_of_order_pair (c, a)"
    and "action_id c \<notin> action_id ` set (activeActions s)"
  shows "activeActions (message_effect (Some (Ephemeral c)) s) = activeActions s"
    and "distinct (map action_id (activeActions
           (message_effect (Some (Ephemeral a)) (message_effect (Some (Ephemeral c)) s))))"
    and "action_id ` set (activeActions
           (message_effect (Some (Ephemeral a)) (message_effect (Some (Ephemeral c)) s)))
         \<subseteq> insert (action_id c) (action_id ` set (activeActions s))"
proof -
  let ?s1 = "message_effect (Some (Ephemeral c)) s"
  from assms(2) have c: "status c = ''completed''" and a: "status a = ''active''"
    and same: "action_id a = action_id c"
    by (simp_all add: out_of_order_pair_def)
  have "\<forall>x\<in>set (activeActions s). action_id x \<noteq> action_id c"
    using assms(3) by (metis imageI)
  then have "filter (\<lambda>x. action_id x \<noteq> action_id c) (activeActions s) = activeActions s"
    by (rule filter_True)
  with completed_removes_or_keeps [OF c, of s] show keep: "activeActions ?s1 = activeActions s"
    by auto
  from active_appends_at_most_once [OF a, of ?s1] keep assms(1,3) same
  show "distinct (map action_id (activeActions (message_effect (Some (Ephemeral a)) ?s1)))"
    by auto
  from active_appends_at_most_once [OF a, of ?s1] keep same
  show "action_id ` set (activeActions (message_effect (Some (Ephemeral a)) ?s1))
         \<subseteq> insert (action_id c) (action_id ` set (activeActions s))"
    by auto
qed

lemma fresh_pairs_keep_distinct:
  assumes "distinct (map action_id (activeActions s))" and "list_all out_of_order_pair ps"
    and "distinct (map (\<lambda>p. action_id (fst p)) ps)"
    and "action_id ` set (activeActions s) \<inter> (\<lambda>p. action_id (fst p)) ` set ps = {}"
  shows "distinct (map action_id (activeActions (process_all (take n (arrivals ps)) s)))"
  using assms
proof (induction ps arbitrary: s n)
  case Nil
  then show ?case by (simp add: process_all_Nil)
next
  case (Cons p ps)
  obtain c a where p: "p = (c, a)" by (cases p)
  from Cons.prems p have ca: "out_of_order_pair (c, a)" and rest: "list_all out_of_order_pair ps"
    and fresh: "action_id c \<notin> action_id ` set (activeActions s)"
    and later: "action_id c \<notin> (\<lambda>p. action_id (fst p)) ` set ps"
    and dps: "distinct (map (\<lambda>p. action_id (fst p)) ps)"
    and disj: "action_id ` set (activeActions s) \<inter> (\<lambda>p. action_id (fst p)) ` set ps = {}"
    by auto
  note step = fresh_pair_step [OF Cons.prems(1) ca fresh]
  let ?s2 = "message_effect (Some (Ephemeral a)) (message_effect (Some (Ephemeral c)) s)"
  have sets: "A2 \<inter> B = {}" if "A2 \<subseteq> insert x A" and "x \<notin> B" and "A \<inter> B = {}"
    for A2 A B :: "string set" and x
    using that by blast
  from step(3) later disj
  have disj2: "action_id ` set (activeActions ?s2) \<inter> (\<lambda>p. action_id (fst p)) ` set ps = {}"
    by (rule sets)
  show ?case
  proof (cases n)
    case 0
    with Cons.prems show ?thesis by (simp add: process_all_Nil)
  next
    case (Suc k)
    show ?thesis
    proof (cases k)
      case 0
      with Suc p step(1) Cons.prems(1) show ?thesis
        by (simp add: process_all_Nil process_all_Cons)
    next
      case (Suc j)
      with \<open>n = Suc k\<close> p Cons.IH [OF step(2) rest dps disj2, of j] show ?thesis
        by (simp add: process_all_Cons)
    qed
  qed
qed

text \<open>
  C3, as stated: after any sequence of completed-then-active events with the same action
  id the active actions never hold two entries with the same id. In a new session take
  two such pairs for the action a1, the active events without bounds, the second
  completed event with an error message. The first completed event filters an empty list
  and the first active event is appended; the second completed event is an error
  notification and returns at line 284 before the filter; the second active event is
  appended to a list that still holds a1.
\<close>

theorem repeated_pair_after_error_counterexample:
  "list_all out_of_order_pair
     [(a1_completed, a1_active\<lparr>bounds := None\<rparr>),
      (a1_completed\<lparr>error_message := Some ''boom''\<rparr>, a1_active\<lparr>bounds := None\<rparr>)]
   \<and> activeActions fresh_session = []
   \<and> map action_id (activeActions (process_all
        [Ephemeral a1_completed, Ephemeral (a1_active\<lparr>bounds := None\<rparr>)] fresh_session))
       = [''a1'']
   \<and> map action_id (activeActions (process_all (arrivals
        [(a1_completed, a1_active\<lparr>bounds := None\<rparr>),
         (a1_completed\<lparr>error_message := Some ''boom''\<rparr>, a1_active\<lparr>bounds := None\<rparr>)])
        fresh_session))
       = [''a1'', ''a1'']
   \<and> \<not> distinct (map action_id (activeActions (process_all (arrivals
        [(a1_completed, a1_active\<lparr>bounds := None\<rparr>),
         (a1_completed\<lparr>error_message := Some ''boom''\<rparr>, a1_active\<lparr>bounds := None\<rparr>)])
        fresh_session)))"
  by (simp add: out_of_order_pair_def process_all_def message_effect_def try_body_def
      wants_zoom_def is_error_notification_def truthy_string_def truthy_opt_def
      invalidateMapData_def addError_def random_suffix_def console_error_def
      a1_active_def a1_completed_def fresh_session_def initial_state_def Let_def)

text \<open>
  C3, amended. Take any number of out-of-order pairs, each a completed event followed by
  the active event with the same action id, every event processed by one run of the
  effect, and let the active actions start with pairwise different ids, as the empty list
  of a new session does. Suppose that no completed event is an error notification, or
  else that no action id occurs in two pairs or among the active actions at the start (a
  single pair in a new session, for one). Then after every prefix of the arrivals, and so
  after the whole sequence, no two active actions have the same action id.
\<close>

theorem out_of_order_pairs_no_duplicate_ids:
  assumes "list_all out_of_order_pair ps"
    and "distinct (map action_id (activeActions s))"
    and "(\<forall>p\<in>set ps. \<not> is_error_notification (fst p))
         \<or> (distinct (map (\<lambda>p. action_id (fst p)) ps)
            \<and> action_id ` set (activeActions s) \<inter> (\<lambda>p. action_id (fst p)) ` set ps = {})"
  shows "distinct (map action_id (activeActions (process_all (take n (arrivals ps)) s)))"
  using assms(3)
proof
  assume "\<forall>p\<in>set ps. \<not> is_error_notification (fst p)"
  with assms(2,1) show ?thesis by (rule ordinary_pairs_keep_distinct)
next
  assume "distinct (map (\<lambda>p. action_id (fst p)) ps)
      \<and> action_id ` set (activeActions s) \<inter> (\<lambda>p. action_id (fst p)) ` set ps = {}"
  with assms(2,1) show ?thesis by (simp add: fresh_pairs_keep_distinct)
qed

theorem out_of_order_pairs_no_duplicate_ids_witness:
  "list_all out_of_order_pair [(a1_completed, a1_active)]
   \<and> distinct (map action_id (activeActions example_state))
   \<and> \<not> is_error_notification a1_completed
   \<and> activeActions (process_all [Ephemeral a1_completed, Ephemeral a1_active] example_state)
       = [a1_active]
   \<and> distinct (map action_id (activeActions
        (process_all (take 2 (arrivals [(a1_completed, a1_active)])) example_state)))"
proof -
  have pairs: "list_all out_of_order_pair [(a1_completed, a1_active)]"
    by (simp add: out_of_order_pair_def a1_completed_def a1_active_def)
  have start: "distinct (map action_id (activeActions example_state))"
    by (simp add: example_state_def fresh_session_def initial_state_def)
  have ordinary: "\<forall>p\<in>set [(a1_completed, a1_active)]. \<not> is_error_notification (fst p)"
    by (simp add: a1_completed_def is_error_notification_def truthy_string_def)
  have stale: "activeActions (process_all [Ephemeral a1_completed, Ephemeral a1_active] example_state)
       = [a1_active]"
    by (simp add: process_all_def message_effect_def try_body_def wants_zoom_def zoom_to_bounds_def
        a1_active_def a1_completed_def is_error_notification_def truthy_string_def truthy_opt_def
        invalidateMapData_def example_state_def fresh_session_def initial_state_def Let_def)
  from out_of_order_pairs_no_duplicate_ids [OF pairs start, of 2] ordinary
  have "distinct (map action_id (activeActions
        (process_all (take 2 (arrivals [(a1_completed, a1_active)])) example_state)))"
    by blast
  with pairs start ordinary stale show ?thesis by simp
qed

text \<open>
  C4, as stated: from the empty ephemeral state the two messages of the example perform
  exactly one zoom. In the state of a session that has just started the map view handle
  is not registered yet (\<open>mapRef\<close> holds \<open>null\<close>), and then the two messages zoom nowhere:
  no handle, no history entry; the invalidation and the empty list are as stated.
\<close>

theorem example_before_map_registers_counterexample:
  "errors fresh_session = [] \<and> activeActions fresh_session = []
   \<and> zoomHistory fresh_session = [] \<and> zoomHistoryIndex fresh_session = - 1
   \<and> processedBoundsActionIds fresh_session = {} \<and> mapRef fresh_session = None
   \<and> mapRef (process_all [Ephemeral a1_active, Ephemeral a1_completed] fresh_session) = None
   \<and> zoomHistory (process_all [Ephemeral a1_active, Ephemeral a1_completed] fresh_session) = []
   \<and> zoomHistoryIndex (process_all [Ephemeral a1_active, Ephemeral a1_completed] fresh_session) = - 1
   \<and> invalidateMapData_calls (process_all [Ephemeral a1_active, Ephemeral a1_completed] fresh_session) = 1
   \<and> activeActions (process_all [Ephemeral a1_active, Ephemeral a1_completed] fresh_session) = []"
  by (simp add: process_all_def message_effect_def try_body_def wants_zoom_def
      is_error_notification_def truthy_string_def truthy_opt_def invalidateMapData_def
      a1_active_def a1_completed_def fresh_session_def initial_state_def Let_def)

text \<open>
  C4, amended. Start from the empty ephemeral state (no errors, no active actions, empty
  zoom history with index -1, no processed ids) with the map view handle available. After the
  message a1 "active" with bounds [0,0,10,10] and then the message a1 "completed" with
  \<open>updates = {style_json: {}}\<close>, the view has received exactly one more command, the zoom
  to ((0,0),(10,10)) with padding 50; the map document has been invalidated exactly once
  more; and the list of active actions is empty. The run of the effect that React repeats
  for the first message, because the zoom has moved the history index, changes none of
  this.
\<close>

theorem example_active_then_completed:
  assumes "activeActions s = []" and "zoomHistory s = []" and "zoomHistoryIndex s = - 1"
    and "errors s = []" and "processedBoundsActionIds s = {}" and "mapRef s = Some m"
  shows "mapRef (process_all [Ephemeral a1_active, Ephemeral a1_completed] s)
           = Some (m\<lparr>fitBounds_calls := fitBounds_calls m @
               [\<lparr>southwest = (0, 0), northeast = (10, 10), animate = True, padding = Some 50\<rparr>]\<rparr>)
       \<and> invalidateMapData_calls (process_all [Ephemeral a1_active, Ephemeral a1_completed] s)
           = invalidateMapData_calls s + 1
       \<and> activeActions (process_all [Ephemeral a1_active, Ephemeral a1_completed] s) = []
       \<and> length (zoomHistory (process_all [Ephemeral a1_active, Ephemeral a1_completed] s)) = 2
       \<and> zoomHistoryIndex (process_all [Ephemeral a1_active, Ephemeral a1_completed] s) = 1
       \<and> errors (process_all [Ephemeral a1_active, Ephemeral a1_completed] s) = []
       \<and> process_all [Ephemeral a1_active, Ephemeral a1_active, Ephemeral a1_completed] s
           = process_all [Ephemeral a1_active, Ephemeral a1_completed] s"
  using assms
  by (simp add: process_all_def message_effect_def try_body_def wants_zoom_def zoom_to_bounds_def
      a1_active_def a1_completed_def is_error_notification_def truthy_string_def truthy_opt_def
      fitBounds_def invalidateMapData_def slice0_def Let_def)

theorem example_active_then_completed_witness:
  "activeActions example_state = [] \<and> zoomHistory example_state = []
   \<and> zoomHistoryIndex example_state = - 1 \<and> errors example_state = []
   \<and> processedBoundsActionIds example_state = {} \<and> mapRef example_state = Some example_map
   \<and> length (fitBounds_calls (the (mapRef
        (process_all [Ephemeral a1_active, Ephemeral a1_completed] example_state)))) = 1
   \<and> invalidateMapData_calls (process_all [Ephemeral a1_active, Ephemeral a1_completed] example_state) = 1
   \<and> activeActions (process_all [Ephemeral a1_active, Ephemeral a1_completed] example_state) = []"
  using example_active_then_completed [of example_state example_map]
  by (simp add: example_state_def fresh_session_def initial_state_def example_map_def)

section \<open>A completed event without updates\<close>

text \<open>
  C10, as stated: every completed event without \<open>updates\<close> has its action removed and
  adds one generic error entry. Two inputs show otherwise. A completed event without
  \<open>updates\<close> that carries an error message is an error notification: its action stays in
  the list and the entry added has the server's text. And when such an event without an
  error message comes a second time while the generic entry is still in the list, the
  second one adds no entry.
\<close>

theorem completed_without_updates_counterexample:
  "status (a1_completed\<lparr>updates := None, error_message := Some ''boom''\<rparr>) = ''completed''
   \<and> updates (a1_completed\<lparr>updates := None, error_message := Some ''boom''\<rparr>) = None
   \<and> activeActions (message_effect
        (Some (Ephemeral (a1_completed\<lparr>updates := None, error_message := Some ''boom''\<rparr>)))
        (example_state\<lparr>activeActions := [a1_active]\<rparr>)) = [a1_active]
   \<and> map message (errors (message_effect
        (Some (Ephemeral (a1_completed\<lparr>updates := None, error_message := Some ''boom''\<rparr>)))
        (example_state\<lparr>activeActions := [a1_active]\<rparr>))) = [''boom'']
   \<and> length (errors (message_effect (Some (Ephemeral (a1_completed\<lparr>updates := None\<rparr>)))
        (example_state\<lparr>activeActions := [a1_active]\<rparr>))) = 1
   \<and> errors (message_effect (Some (Ephemeral (a1_completed\<lparr>updates := None\<rparr>)))
        (message_effect (Some (Ephemeral (a1_completed\<lparr>updates := None\<rparr>)))
          (example_state\<lparr>activeActions := [a1_active]\<rparr>)))
       = errors (message_effect (Some (Ephemeral (a1_completed\<lparr>updates := None\<rparr>)))
          (example_state\<lparr>activeActions := [a1_active]\<rparr>))"
  by (simp add: message_effect_def try_body_def wants_zoom_def is_error_notification_def
      truthy_string_def addError_def random_suffix_def console_error_def toast_error_def
      processing_failed_def a1_active_def a1_completed_def example_state_def fresh_session_def
      initial_state_def Let_def)

text \<open>
  C10, amended. A completed event that is not an error notification and has no \<open>updates\<close> field:
  the body of the \<open>try\<close> block throws after it has removed the actions with the event's id
  from the active actions; the \<open>catch\<close> block calls \<open>addError\<close> with the text
  "Failed to process update from server.", which appends one entry with that text, shown as
  a toast too, unless an entry with that text is already in the list; the map document is
  not invalidated; and the effect returns, so the messages that follow are processed, a
  regular message after it invalidating the map document as usual.
\<close>

theorem completed_without_updates:
  assumes "status c = ''completed''" and "updates c = None" and "\<not> is_error_notification c"
  shows "try_body (Ephemeral c) s
           = Threw (s\<lparr>activeActions := filter (\<lambda>a. action_id a \<noteq> action_id c) (activeActions s)\<rparr>)
       \<and> activeActions (message_effect (Some (Ephemeral c)) s)
           = filter (\<lambda>a. action_id a \<noteq> action_id c) (activeActions s)
       \<and> invalidateMapData_calls (message_effect (Some (Ephemeral c)) s) = invalidateMapData_calls s
       \<and> errors (message_effect (Some (Ephemeral c)) s)
           = (if list_ex (\<lambda>e. message e = processing_failed) (errors s) then errors s
              else errors s @ [\<lparr>id_e = string_of_nat (now s) @ math_random s (random_calls s),
                                 message = processing_failed, timestamp = now s,
                                 shouldOverrideMessages = False, sourceId = None\<rparr>])
       \<and> toasts (message_effect (Some (Ephemeral c)) s)
           = (if list_ex (\<lambda>e. message e = processing_failed) (errors s) then toasts s
              else toasts s @ [processing_failed])
       \<and> list_ex (\<lambda>e. message e = processing_failed) (errors (message_effect (Some (Ephemeral c)) s))
       \<and> process_all (Ephemeral c # ms) s = process_all ms (message_effect (Some (Ephemeral c)) s)
       \<and> invalidateMapData_calls (process_all [Ephemeral c, Regular] s) = invalidateMapData_calls s + 1"
  using assms
  by (simp add: process_all_def message_effect_def try_body_def wants_zoom_def addError_frame
      console_error_frame invalidateMapData_def addError_def random_suffix_def console_error_def
      toast_error_def Let_def)

theorem completed_without_updates_witness:
  "status (a1_completed\<lparr>updates := None\<rparr>) = ''completed''
   \<and> updates (a1_completed\<lparr>updates := None\<rparr>) = None
   \<and> \<not> is_error_notification (a1_completed\<lparr>updates := None\<rparr>)
   \<and> activeActions (message_effect (Some (Ephemeral (a1_completed\<lparr>updates := None\<rparr>)))
        (example_state\<lparr>activeActions := [a1_active]\<rparr>)) = []
   \<and> invalidateMapData_calls (message_effect (Some (Ephemeral (a1_completed\<lparr>updates := None\<rparr>)))
        (example_state\<lparr>activeActions := [a1_active]\<rparr>)) = 0
   \<and> map message (errors (message_effect (Some (Ephemeral (a1_completed\<lparr>updates := None\<rparr>)))
        (example_state\<lparr>activeActions := [a1_active]\<rparr>))) = [processing_failed]
   \<and> toasts (message_effect (Some (Ephemeral (a1_completed\<lparr>updates := None\<rparr>)))
        (example_state\<lparr>activeActions := [a1_active]\<rparr>)) = [processing_failed]
   \<and> invalidateMapData_calls (process_all [Ephemeral (a1_completed\<lparr>updates := None\<rparr>), Regular]
        (example_state\<lparr>activeActions := [a1_active]\<rparr>)) = 1"
  using completed_without_updates
    [of "a1_completed\<lparr>updates := None\<rparr>" "example_state\<lparr>activeActions := [a1_active]\<rparr>" "[]"]
  by (simp add: a1_completed_def a1_active_def example_state_def fresh_session_def initial_state_def
      is_error_notification_def truthy_string_def)

section \<open>The error list\<close>

lemma fold_dismiss_errors:
  "errors (fold (\<lambda>(due, eid). dismissError eid) ts s)
     = filter (\<lambda>e. id_e e \<notin> snd ` set ts) (errors s)"
proof (induction ts arbitrary: s)
  case Nil
  then show ?case by simp
next
  case (Cons t ts)
  obtain d i where t: "t = (d, i)" by (cases t)
  have "errors (fold (\<lambda>(due, eid). dismissError eid) (t # ts) s)
          = filter (\<lambda>e. id_e e \<notin> snd ` set ts) (errors (dismissError i s))"
    by (simp add: t Cons.IH)
  also have "\<dots> = filter (\<lambda>e. id_e e \<notin> snd ` set (t # ts)) (errors s)"
    by (auto simp: t dismissError_def intro: filter_cong)
  finally show ?case .
qed

lemma run_timers_errors:
  "errors (run_timers t s)
     = filter (\<lambda>e. id_e e \<notin> snd ` {p \<in> set (timers s). fst p \<le> t}) (errors s)"
  by (auto simp: run_timers_def fold_dismiss_errors intro!: filter_cong)

text \<open>
  C5. While an entry with message M is in the error list, \<open>addError\<close> with M does nothing
  at all, so messages stay pairwise different. When no entry has message M, \<open>addError\<close>
  appends one and schedules its removal 30000 ms later: once the clock has reached that
  time and the due callbacks have run, no entry with message M is left, and before that
  time the entry is still there, unless a callback scheduled earlier carries the same id.
\<close>

theorem error_entry_dedup_and_expiry:
  "(list_ex (\<lambda>e. message e = M) (errors s) \<longrightarrow> addError M ov sid s = s)
   \<and> (distinct (map message (errors s)) \<longrightarrow> distinct (map message (errors (addError M ov sid s))))
   \<and> (\<not> list_ex (\<lambda>e. message e = M) (errors s) \<longrightarrow>
        list_ex (\<lambda>e. message e = M) (errors (addError M ov sid s))
        \<and> length (errors (addError M ov sid s)) = length (errors s) + 1
        \<and> timers (addError M ov sid s)
            = timers s @ [(now s + 30000, id_e (last (errors (addError M ov sid s))))]
        \<and> (\<forall>t. now s + 30000 \<le> t \<longrightarrow>
              \<not> list_ex (\<lambda>e. message e = M) (errors (run_timers t (addError M ov sid s))))
        \<and> (\<forall>t. t < now s + 30000
                \<and> id_e (last (errors (addError M ov sid s))) \<notin> snd ` set (timers s) \<longrightarrow>
              list_ex (\<lambda>e. message e = M) (errors (run_timers t (addError M ov sid s)))))"
proof (intro conjI impI allI)
  assume "list_ex (\<lambda>e. message e = M) (errors s)"
  then show "addError M ov sid s = s" by (simp add: addError_def)
next
  assume d: "distinct (map message (errors s))"
  show "distinct (map message (errors (addError M ov sid s)))"
  proof (cases "list_ex (\<lambda>e. message e = M) (errors s)")
    case True
    with d show ?thesis by (simp add: addError_def)
  next
    case False
    with d show ?thesis by (auto simp: addError_new list_ex_iff)
  qed
next
  assume "\<not> list_ex (\<lambda>e. message e = M) (errors s)"
  then show "list_ex (\<lambda>e. message e = M) (errors (addError M ov sid s))"
    by (simp add: addError_new)
next
  assume "\<not> list_ex (\<lambda>e. message e = M) (errors s)"
  then show "length (errors (addError M ov sid s)) = length (errors s) + 1"
    by (simp add: addError_new)
next
  assume "\<not> list_ex (\<lambda>e. message e = M) (errors s)"
  then show "timers (addError M ov sid s)
      = timers s @ [(now s + 30000, id_e (last (errors (addError M ov sid s))))]"
    by (simp add: addError_new)
next
  fix t
  assume fresh: "\<not> list_ex (\<lambda>e. message e = M) (errors s)" and due: "now s + 30000 \<le> t"
  then show "\<not> list_ex (\<lambda>e. message e = M) (errors (run_timers t (addError M ov sid s)))"
    by (auto simp: run_timers_errors addError_new list_ex_iff image_iff)
next
  fix t
  assume fresh: "\<not> list_ex (\<lambda>e. message e = M) (errors s)"
    and early: "t < now s + 30000
      \<and> id_e (last (errors (addError M ov sid s))) \<notin> snd ` set (timers s)"
  then show "list_ex (\<lambda>e. message e = M) (errors (run_timers t (addError M ov sid s)))"
    by (auto simp: run_timers_errors addError_new list_ex_iff image_iff)
qed

theorem error_entry_dedup_and_expiry_witness:
  "\<not> list_ex (\<lambda>e. message e = ''boom'') (errors example_state)
   \<and> now example_state + 30000 \<le> 30000
   \<and> list_ex (\<lambda>e. message e = ''boom'') (errors (addError ''boom'' False None example_state))
   \<and> addError ''boom'' False None (addError ''boom'' False None example_state)
       = addError ''boom'' False None example_state
   \<and> \<not> list_ex (\<lambda>e. message e = ''boom'')
         (errors (run_timers 30000 (addError ''boom'' False None example_state)))"
proof -
  have fresh: "\<not> list_ex (\<lambda>e. message e = ''boom'') (errors example_state)"
    by (simp add: example_state_def fresh_session_def initial_state_def)
  have due: "now example_state + 30000 \<le> 30000"
    by (simp add: example_state_def fresh_session_def initial_state_def)
  from error_entry_dedup_and_expiry [of "''boom''" example_state False None] fresh
  have live: "list_ex (\<lambda>e. message e = ''boom'') (errors (addError ''boom'' False None example_state))"
    and gone: "\<forall>t. now example_state + 30000 \<le> t \<longrightarrow> \<not> list_ex (\<lambda>e. message e = ''boom'')
         (errors (run_timers t (addError ''boom'' False None example_state)))"
    by blast+
  from error_entry_dedup_and_expiry
    [of "''boom''" "addError ''boom'' False None example_state" False None] live
  have noop: "addError ''boom'' False None (addError ''boom'' False None example_state)
       = addError ''boom'' False None example_state"
    by blast
  from gone due have "\<not> list_ex (\<lambda>e. message e = ''boom'')
         (errors (run_timers 30000 (addError ''boom'' False None example_state)))"
    by blast
  with fresh due live noop show ?thesis by blast
qed

section \<open>The upload queue\<close>













end
